theory Spec2Isabelle
  imports Complex_Main "HOL-Library.Sublist"
begin

section \<open>Data model\<close>

text \<open>
  A \<^verbatim>\<open>SimulationModel*\<close> is an address. Only equality and the order of addresses
  (the key order of the \<^verbatim>\<open>std::map\<close>s of the simulator) are used by the code, so
  an address is a natural number and the null pointer is 0.
\<close>

type_synonym model_ref = nat

definition nullptr :: model_ref where
  "nullptr = 0"

text \<open>
  Class \<^verbatim>\<open>Time\<close>: the real time \<^verbatim>\<open>r\<close> (a \<^verbatim>\<open>double\<close>, here a real
  number: no NaN, no rounding) and the counter \<^verbatim>\<open>c\<close> (an \<^verbatim>\<open>int\<close>, here
  unbounded: the code never gets near \<open>2^31\<close> entries at one instant). The fields are named
  after their accessors.
\<close>

record Time =
  getR :: real
  getC :: int

text \<open>
  The three subclasses of \<^verbatim>\<open>Event\<close> differ only in the type label they pass to
  the base constructor; the label is the tag.
\<close>

datatype event_type = Internal | External | Confluent

record Event =
  getTime :: Time
  getModel :: model_ref
  getInput :: string
  getType :: event_type

definition InternalEvent :: "string \<Rightarrow> Time \<Rightarrow> model_ref \<Rightarrow> Event" where
  "InternalEvent input time model =
     \<lparr>getTime = time, getModel = model, getInput = input, getType = Internal\<rparr>"

definition ExternalEvent :: "string \<Rightarrow> Time \<Rightarrow> model_ref \<Rightarrow> Event" where
  "ExternalEvent input time model =
     \<lparr>getTime = time, getModel = model, getInput = input, getType = External\<rparr>"

definition ConfluentEvent :: "string \<Rightarrow> Time \<Rightarrow> model_ref \<Rightarrow> Event" where
  "ConfluentEvent input time model =
     \<lparr>getTime = time, getModel = model, getInput = input, getType = Confluent\<rparr>"

text \<open>
  What can go wrong in a run: an access to the deque outside its bounds and a call through
  a null or dangling model pointer (both undefined behaviour in the source, made visible
  here), and an exception thrown by a model (\<^verbatim>\<open>std::stoi\<close> in the example machines).
\<close>

datatype error = OutOfBounds | NullModel | ModelException

section \<open>The event queue\<close>

text \<open>\<^verbatim>\<open>queue[i]\<close> on the deque, with the bounds written out.\<close>

definition deque_at :: "'a list \<Rightarrow> nat \<Rightarrow> error + 'a" where
  "deque_at q i = (if i < length q then Inr (q ! i) else Inl OutOfBounds)"

text \<open>\<^verbatim>\<open>queue.insert(queue.begin() + i, e)\<close>.\<close>

definition deque_insert :: "nat \<Rightarrow> 'a \<Rightarrow> 'a list \<Rightarrow> 'a list" where
  "deque_insert i e q = take i q @ e # drop i q"

text \<open>\<^verbatim>\<open>scheduleConfluentEvent\<close>: slot \<open>i\<close> is overwritten.\<close>

definition scheduleConfluentEvent ::
  "Event \<Rightarrow> model_ref \<Rightarrow> real \<Rightarrow> nat \<Rightarrow> Event list \<Rightarrow> error + Event list" where
  "scheduleConfluentEvent existingEvent model r i queue =
     (let c = getC (getTime existingEvent);
          eventTime = \<lparr>getR = r, getC = c\<rparr>;
          newEvent = ConfluentEvent (getInput existingEvent) eventTime model
      in if i < length queue then Inr (queue[i := newEvent]) else Inl OutOfBounds)"

text \<open>
  The inner \<^verbatim>\<open>while\<close> of \<^verbatim>\<open>scheduleInternalEvent\<close>. The flag
  \<^verbatim>\<open>eventHasBeenScheduled\<close> is set only by the insertion, which ends the loop, so
  the loop state is \<open>element\<close> and \<open>existingEvent\<close>. The guard
  \<^verbatim>\<open>element < queue.size() - 1\<close> is an unsigned comparison; the queue is never empty
  here, and the guard is written \<open>element + 1 < length queue\<close>.
\<close>

function scheduleInternalEvent_while ::
  "real \<Rightarrow> model_ref \<Rightarrow> nat \<Rightarrow> nat \<Rightarrow> Event \<Rightarrow> Event list \<Rightarrow> error + Event list" where
  "scheduleInternalEvent_while r model i element existingEvent queue =
     (if element + 1 < length queue then
        if getR (getTime existingEvent) = r then
          if getModel existingEvent = model then
            (if getType existingEvent = External
             then scheduleConfluentEvent existingEvent model r i queue
             else Inr queue)
          else
            (case deque_at queue (element + 1) of
               Inl e \<Rightarrow> Inl e
             | Inr next_ev \<Rightarrow>
                 scheduleInternalEvent_while r model i (element + 1) next_ev queue)
        else
          (if element = 0 then Inl OutOfBounds
           else case deque_at queue (element - 1) of
               Inl e \<Rightarrow> Inl e
             | Inr lastEvent \<Rightarrow>
                 let lastEventR = getR (getTime lastEvent);
                     lastEventC = getC (getTime lastEvent);
                     c = (if lastEventR = r then lastEventC + 1 else 0);
                     eventTime = \<lparr>getR = r, getC = c\<rparr>;
                     newEvent = InternalEvent [] eventTime model
                 in Inr (deque_insert element newEvent queue))
      else Inr queue)"
  by pat_completeness auto
termination
  by (relation "measure (\<lambda>(r, model, i, element, existingEvent, queue). length queue - element)")
     auto

text \<open>
  The \<^verbatim>\<open>for\<close> loop of \<^verbatim>\<open>scheduleInternalEvent\<close>, from index \<open>i\<close> on;
  when it runs off the end the event is appended with counter 0.
\<close>

function scheduleInternalEvent_for ::
  "real \<Rightarrow> model_ref \<Rightarrow> nat \<Rightarrow> Event list \<Rightarrow> error + Event list" where
  "scheduleInternalEvent_for r model i queue =
     (if i < length queue then
        let existingEvent = queue ! i in
        if getR (getTime existingEvent) = r then
          if getModel existingEvent = model then
            (if getType existingEvent = External
             then scheduleConfluentEvent existingEvent model r i queue
             else Inr queue)
          else
            let element = i;
                queue' = (if element = length queue - 1
                          then queue @ [InternalEvent [] \<lparr>getR = r, getC = 0\<rparr> model]
                          else queue)
            in scheduleInternalEvent_while r model i element existingEvent queue'
        else if getR (getTime existingEvent) > r then
          Inr (deque_insert i (InternalEvent [] \<lparr>getR = r, getC = 0\<rparr> model) queue)
        else scheduleInternalEvent_for r model (i + 1) queue
      else Inr (queue @ [InternalEvent [] \<lparr>getR = r, getC = 0\<rparr> model]))"
  by pat_completeness auto
termination
  by (relation "measure (\<lambda>(r, model, i, queue). length queue - i)") auto

definition scheduleInternalEvent :: "real \<Rightarrow> model_ref \<Rightarrow> Event list \<Rightarrow> error + Event list" where
  "scheduleInternalEvent r model queue = scheduleInternalEvent_for r model 0 queue"

text \<open>
  The inner \<^verbatim>\<open>while\<close> of \<^verbatim>\<open>scheduleExternalEvent\<close>. It has no bound on
  \<open>element\<close>: both \<^verbatim>\<open>queue[element]\<close> reads can leave the deque. The Confluent
  event is written to slot \<open>i\<close>, the start of the scan, as in the source.
\<close>

function scheduleExternalEvent_while ::
  "string \<Rightarrow> real \<Rightarrow> model_ref \<Rightarrow> nat \<Rightarrow> nat \<Rightarrow> Event \<Rightarrow> Event list \<Rightarrow> error + Event list" where
  "scheduleExternalEvent_while input r model i element existingEvent queue =
     (if getType existingEvent = Internal then
        if getModel existingEvent = model then
          (let c = getC (getTime existingEvent);
               eventTime = \<lparr>getR = r, getC = c\<rparr>;
               newEvent = ConfluentEvent input eventTime model
           in if i < length queue then Inr (queue[i := newEvent]) else Inl OutOfBounds)
        else
          (case deque_at queue (element + 1) of
             Inl e \<Rightarrow> Inl e
           | Inr next_ev \<Rightarrow>
               scheduleExternalEvent_while input r model i (element + 1) next_ev queue)
      else
        (case deque_at queue (element + 1) of
           Inl e \<Rightarrow> Inl e
         | Inr next_ev \<Rightarrow>
             if getR (getTime next_ev) = r then
               scheduleExternalEvent_while input r model i (element + 1) next_ev queue
             else
               let c = getC (getTime existingEvent) + 1;
                   eventTime = \<lparr>getR = r, getC = c\<rparr>;
                   newEvent = ExternalEvent input eventTime model
               in Inr (deque_insert (element + 1) newEvent queue)))"
  by pat_completeness auto
termination
  by (relation "measure (\<lambda>(input, r, model, i, element, existingEvent, queue).
                   length queue - element)")
     (auto simp: deque_at_def split: if_splits)

function scheduleExternalEvent_for ::
  "string \<Rightarrow> real \<Rightarrow> model_ref \<Rightarrow> nat \<Rightarrow> Event list \<Rightarrow> error + Event list" where
  "scheduleExternalEvent_for input r model i queue =
     (if i < length queue then
        let existingEvent = queue ! i in
        if getR (getTime existingEvent) = r then
          scheduleExternalEvent_while input r model i i existingEvent queue
        else if getR (getTime existingEvent) > r then
          Inr (deque_insert i (ExternalEvent input \<lparr>getR = r, getC = 0\<rparr> model) queue)
        else scheduleExternalEvent_for input r model (i + 1) queue
      else Inr (queue @ [ExternalEvent input \<lparr>getR = r, getC = 0\<rparr> model]))"
  by pat_completeness auto
termination
  by (relation "measure (\<lambda>(input, r, model, i, queue). length queue - i)") auto

definition scheduleExternalEvent ::
  "string \<Rightarrow> real \<Rightarrow> model_ref \<Rightarrow> Event list \<Rightarrow> error + Event list" where
  "scheduleExternalEvent input r model queue = scheduleExternalEvent_for input r model 0 queue"

text \<open>
  \<^verbatim>\<open>getNextEvents\<close>: the loop pops the front while \<open>nextR = r\<close>; once the deque
  is empty \<open>nextR\<close> becomes \<open>-1\<close>. Reading the front of an empty deque is out of bounds.
\<close>

fun getNextEvents_while ::
  "real \<Rightarrow> real \<Rightarrow> Event list \<Rightarrow> Event list \<Rightarrow> error + (Event list \<times> Event list)" where
  "getNextEvents_while r nextR events [] =
     (if nextR = r then Inl OutOfBounds else Inr (events, []))"
| "getNextEvents_while r nextR events (e # queue) =
     (if nextR = r then
        getNextEvents_while r (if queue = [] then - 1 else getR (getTime (hd queue)))
          (events @ [e]) queue
      else Inr (events, e # queue))"

definition getNextEvents :: "Event list \<Rightarrow> error + (Event list \<times> Event list)" where
  "getNextEvents queue =
     (if queue = [] then Inr ([], [])
      else let r = getR (getTime (hd queue)); nextR = r
           in getNextEvents_while r nextR [] queue)"

definition timeAdvance :: "Event list \<Rightarrow> error + real" where
  "timeAdvance queue =
     (case deque_at queue 0 of Inl e \<Rightarrow> Inl e | Inr ev \<Rightarrow> Inr (getR (getTime ev)))"

definition isEmpty :: "Event list \<Rightarrow> bool" where
  "isEmpty queue = (queue = [])"

section \<open>Atomic models\<close>

text \<open>
  The abstract class \<^verbatim>\<open>SimulationModel\<close>: five virtual member functions, none of
  them \<^verbatim>\<open>const\<close>, over the private state \<open>'s\<close> of the object. Each may throw.
  \<^verbatim>\<open>getNextInternalEvent\<close> returns a \<^verbatim>\<open>double\<close> that the simulator only
  compares with infinity: \<open>None\<close> stands for a value that is not below infinity.
\<close>

record 's SimulationModel =
  lambda :: "'s \<Rightarrow> error + (string \<times> 's)"
  deltaInt :: "real \<Rightarrow> 's \<Rightarrow> error + 's"
  deltaExt :: "string \<Rightarrow> real \<Rightarrow> 's \<Rightarrow> error + 's"
  deltaCon :: "string \<Rightarrow> real \<Rightarrow> 's \<Rightarrow> error + 's"
  getNextInternalEvent :: "'s \<Rightarrow> error + (real option \<times> 's)"

text \<open>An object is its virtual table and its state; the store maps addresses to objects.\<close>

record 's object =
  vtable :: "'s SimulationModel"
  state :: 's

type_synonym 's store = "model_ref \<rightharpoonup> 's object"

definition deref :: "'s store \<Rightarrow> model_ref \<Rightarrow> error + 's object" where
  "deref h m =
     (if m = nullptr then Inl NullModel
      else case h m of None \<Rightarrow> Inl NullModel | Some obj \<Rightarrow> Inr obj)"

section \<open>The simulator\<close>

text \<open>
  A \<^verbatim>\<open>std::map\<close> is a list of pairs in ascending key order with distinct keys.
  \<open>map_assign\<close> is \<^verbatim>\<open>m[k] = v\<close>; \<open>map_index\<close> is the read \<^verbatim>\<open>m[k]\<close>, which
  inserts a value-initialised entry (given as \<open>d\<close>) when the key is missing.
\<close>

fun map_assign :: "'k::linorder \<Rightarrow> 'v \<Rightarrow> ('k \<times> 'v) list \<Rightarrow> ('k \<times> 'v) list" where
  "map_assign k v [] = [(k, v)]"
| "map_assign k v ((k', v') # m) =
     (if k < k' then (k, v) # (k', v') # m
      else if k = k' then (k, v) # m
      else (k', v') # map_assign k v m)"

definition map_index :: "'k::linorder \<Rightarrow> 'v \<Rightarrow> ('k \<times> 'v) list \<Rightarrow> 'v \<times> ('k \<times> 'v) list" where
  "map_index k d m =
     (case map_of m k of Some v \<Rightarrow> (v, m) | None \<Rightarrow> (d, map_assign k d m))"

text \<open>
  The calls made through model pointers, in the order they are made. The log is not in the
  source: it records each virtual call at the place the source makes it.
\<close>

datatype call =
    CallLambda model_ref
  | CallDeltaInt model_ref real
  | CallDeltaExt model_ref string real
  | CallDeltaCon model_ref string real
  | CallGetNextInternalEvent model_ref

text \<open>
  The state of a run: the four members of class \<^verbatim>\<open>Simulator\<close>, the objects the
  model pointers refer to, the local \<^verbatim>\<open>sb\<close> of \<^verbatim>\<open>simulate\<close> (one record
  \<open>(r, output)\<close> per line written), and the call log.
\<close>

record 's Simulator =
  queue :: "Event list"
  inputs :: "(real \<times> string) list"
  models :: "(model_ref \<times> string) list"
  couplings :: "(model_ref \<times> model_ref) list"
  heap :: "'s store"
  sb :: "(real \<times> string) list"
  calls :: "call list"

text \<open>A failed run reports the error and the calls made up to it.\<close>

type_synonym fault = "error \<times> call list"

definition Simulator_new :: "'s store \<Rightarrow> 's Simulator" where
  "Simulator_new h =
     \<lparr>queue = [], inputs = [], models = [], couplings = [], heap = h, sb = [], calls = []\<rparr>"

definition addInput :: "string \<Rightarrow> real \<Rightarrow> 's Simulator \<Rightarrow> 's Simulator" where
  "addInput input r s = s\<lparr>inputs := map_assign r input (inputs s)\<rparr>"

definition addModel :: "model_ref \<Rightarrow> 's Simulator \<Rightarrow> 's Simulator" where
  "addModel m s = s\<lparr>models := map_assign m [] (models s)\<rparr>"

definition addCoupling :: "model_ref \<Rightarrow> model_ref \<Rightarrow> 's Simulator \<Rightarrow> 's Simulator" where
  "addCoupling m1 m2 s = s\<lparr>couplings := map_assign m1 m2 (couplings s)\<rparr>"

definition routeInputTo :: "model_ref \<Rightarrow> 's Simulator \<Rightarrow> 's Simulator" where
  "routeInputTo m s = s\<lparr>couplings := map_assign nullptr m (couplings s)\<rparr>"

definition takeOutputFrom :: "model_ref \<Rightarrow> 's Simulator \<Rightarrow> 's Simulator" where
  "takeOutputFrom m s = s\<lparr>couplings := map_assign m nullptr (couplings s)\<rparr>"

definition clearOutputs :: "'s Simulator \<Rightarrow> 's Simulator" where
  "clearOutputs s = s\<lparr>models := map (\<lambda>(m, output). (m, [])) (models s)\<rparr>"

text \<open>\<^verbatim>\<open>scheduleEvents\<close>: the loop over \<^verbatim>\<open>inputs\<close>, in key order.\<close>

fun scheduleEvents_for ::
  "model_ref \<Rightarrow> (real \<times> string) list \<Rightarrow> Event list \<Rightarrow> error + Event list" where
  "scheduleEvents_for inputModel [] q = Inr q"
| "scheduleEvents_for inputModel ((r, input) # rest) q =
     (case scheduleExternalEvent input r inputModel q of
        Inl e \<Rightarrow> Inl e
      | Inr q' \<Rightarrow> scheduleEvents_for inputModel rest q')"

definition scheduleEvents :: "'s Simulator \<Rightarrow> fault + 's Simulator" where
  "scheduleEvents s =
     (let (inputModel, cp) = map_index nullptr nullptr (couplings s)
      in case scheduleEvents_for inputModel (inputs s) (queue s) of
           Inl e \<Rightarrow> Inl (e, calls s)
         | Inr q \<Rightarrow> Inr (s\<lparr>couplings := cp, queue := q\<rparr>))"

text \<open>The virtual calls: look the object up, log the call, run it, store the new state.\<close>

definition set_state :: "model_ref \<Rightarrow> 's object \<Rightarrow> 's \<Rightarrow> 's Simulator \<Rightarrow> 's Simulator" where
  "set_state m obj st s = s\<lparr>heap := (heap s)(m \<mapsto> obj\<lparr>state := st\<rparr>)\<rparr>"

definition log_call :: "call \<Rightarrow> 's Simulator \<Rightarrow> 's Simulator" where
  "log_call cl s = s\<lparr>calls := calls s @ [cl]\<rparr>"

definition call_lambda :: "model_ref \<Rightarrow> 's Simulator \<Rightarrow> fault + (string \<times> 's Simulator)" where
  "call_lambda m s =
     (case deref (heap s) m of
        Inl e \<Rightarrow> Inl (e, calls s)
      | Inr obj \<Rightarrow>
          (let s1 = log_call (CallLambda m) s in
           (case lambda (vtable obj) (state obj) of
              Inl e \<Rightarrow> Inl (e, calls s1)
            | Inr (output, st) \<Rightarrow> Inr (output, set_state m obj st s1))))"

definition call_delta :: "Event \<Rightarrow> 's Simulator \<Rightarrow> fault + 's Simulator" where
  "call_delta event s =
     (let m = getModel event; r = getR (getTime event) in
      (case deref (heap s) m of
        Inl e \<Rightarrow> Inl (e, calls s)
      | Inr obj \<Rightarrow>
          let (cl, res) =
                (case getType event of
                   Internal \<Rightarrow> (CallDeltaInt m r, deltaInt (vtable obj) r (state obj))
                 | External \<Rightarrow>
                     (CallDeltaExt m (getInput event) r,
                      deltaExt (vtable obj) (getInput event) r (state obj))
                 | Confluent \<Rightarrow>
                     (CallDeltaCon m (getInput event) r,
                      deltaCon (vtable obj) (getInput event) r (state obj)));
              s1 = log_call cl s
          in (case res of
                Inl e \<Rightarrow> Inl (e, calls s1)
              | Inr st \<Rightarrow> Inr (set_state m obj st s1))))"

definition call_getNextInternalEvent ::
  "model_ref \<Rightarrow> 's Simulator \<Rightarrow> fault + (real option \<times> 's Simulator)" where
  "call_getNextInternalEvent m s =
     (case deref (heap s) m of
        Inl e \<Rightarrow> Inl (e, calls s)
      | Inr obj \<Rightarrow>
          (let s1 = log_call (CallGetNextInternalEvent m) s in
           (case getNextInternalEvent (vtable obj) (state obj) of
              Inl e \<Rightarrow> Inl (e, calls s1)
            | Inr (next_r, st) \<Rightarrow> Inr (next_r, set_state m obj st s1))))"

text \<open>First loop of the body of \<^verbatim>\<open>simulate\<close>: the outputs of the imminent events.\<close>

fun output_loop :: "Event list \<Rightarrow> 's Simulator \<Rightarrow> fault + 's Simulator" where
  "output_loop [] s = Inr s"
| "output_loop (event # events) s =
     (if getType event \<noteq> External then
        let model = getModel event in
        case call_lambda model s of
          Inl x \<Rightarrow> Inl x
        | Inr (output, s1) \<Rightarrow>
            output_loop events (s1\<lparr>models := map_assign model output (models s1)\<rparr>)
      else output_loop events s)"

text \<open>
  Second loop: every entry of \<^verbatim>\<open>models\<close>, in key order. The loop does not change
  \<^verbatim>\<open>models\<close>, so it runs over the entries as they are when it starts.
\<close>

fun route_loop :: "real \<Rightarrow> (model_ref \<times> string) list \<Rightarrow> 's Simulator \<Rightarrow> fault + 's Simulator" where
  "route_loop r [] s = Inr s"
| "route_loop r ((m, output) # rest) s =
     (if output \<noteq> [] then
        let (destinationModel, cp) = map_index m nullptr (couplings s);
            s1 = s\<lparr>couplings := cp\<rparr>
        in if destinationModel = nullptr then
             route_loop r rest (s1\<lparr>sb := sb s1 @ [(r, output)]\<rparr>)
           else
             case scheduleExternalEvent output r destinationModel (queue s1) of
               Inl e \<Rightarrow> Inl (e, calls s1)
             | Inr q \<Rightarrow> route_loop r rest (s1\<lparr>queue := q\<rparr>)
      else route_loop r rest s)"

text \<open>Third loop: the transitions, each followed by the rescheduling of its model.\<close>

fun transition_loop :: "Event list \<Rightarrow> 's Simulator \<Rightarrow> fault + 's Simulator" where
  "transition_loop [] s = Inr s"
| "transition_loop (event # events) s =
     (case call_delta event s of
        Inl x \<Rightarrow> Inl x
      | Inr s1 \<Rightarrow>
          (case call_getNextInternalEvent (getModel event) s1 of
             Inl x \<Rightarrow> Inl x
           | Inr (next_r, s2) \<Rightarrow>
               (case next_r of
                  None \<Rightarrow> transition_loop events s2
                | Some t \<Rightarrow>
                    (case scheduleInternalEvent t (getModel event) (queue s2) of
                       Inl e \<Rightarrow> Inl (e, calls s2)
                     | Inr q \<Rightarrow> transition_loop events (s2\<lparr>queue := q\<rparr>)))))"

text \<open>One pass through the body of the \<^verbatim>\<open>while\<close> of \<^verbatim>\<open>simulate\<close>.\<close>

definition simulate_step :: "'s Simulator \<Rightarrow> fault + 's Simulator" where
  "simulate_step s =
     (case timeAdvance (queue s) of
        Inl e \<Rightarrow> Inl (e, calls s)
      | Inr r \<Rightarrow>
          (case getNextEvents (queue s) of
             Inl e \<Rightarrow> Inl (e, calls s)
           | Inr (events, q) \<Rightarrow>
               (case output_loop events (clearOutputs (s\<lparr>queue := q\<rparr>)) of
                  Inl x \<Rightarrow> Inl x
                | Inr s2 \<Rightarrow>
                    (case route_loop r (models s2) s2 of
                       Inl x \<Rightarrow> Inl x
                     | Inr s3 \<Rightarrow> transition_loop events s3))))"

text \<open>
  The \<^verbatim>\<open>while (!queue.isEmpty())\<close> of \<^verbatim>\<open>simulate\<close> need not end (a model may
  reschedule itself for ever): the loop takes fuel, one unit per pass, and \<open>None\<close> means
  that the fuel ran out with events still pending.
\<close>

fun simulate_while :: "nat \<Rightarrow> 's Simulator \<Rightarrow> (fault + 's Simulator) option" where
  "simulate_while 0 s = (if isEmpty (queue s) then Some (Inr s) else None)"
| "simulate_while (Suc n) s =
     (if isEmpty (queue s) then Some (Inr s)
      else case simulate_step s of
             Inl x \<Rightarrow> Some (Inl x)
           | Inr s' \<Rightarrow> simulate_while n s')"

definition simulate_run :: "nat \<Rightarrow> 's Simulator \<Rightarrow> (fault + 's Simulator) option" where
  "simulate_run fuel s =
     (case scheduleEvents s of
        Inl x \<Rightarrow> Some (Inl x)
      | Inr s0 \<Rightarrow> simulate_while fuel (s0\<lparr>sb := []\<rparr>))"

text \<open>\<^verbatim>\<open>simulate\<close> returns the text written to \<^verbatim>\<open>sb\<close>.\<close>

definition simulate :: "nat \<Rightarrow> 's Simulator \<Rightarrow> (fault + (real \<times> string) list) option" where
  "simulate fuel s = map_option (map_sum id sb) (simulate_run fuel s)"

section \<open>The example models\<close>

text \<open>
  \<^verbatim>\<open>std::stoi\<close> in base 10: leading white space is skipped, a sign is optional,
  the longest run of digits is read; no digit, or a value outside the range of
  \<^verbatim>\<open>int\<close>, throws.
\<close>

definition isspace :: "char \<Rightarrow> bool" where
  "isspace ch = (of_char ch \<in> {32, 9, 10, 11, 12, 13 :: nat})"

definition isdigit :: "char \<Rightarrow> bool" where
  "isdigit ch = (48 \<le> (of_char ch :: nat) \<and> (of_char ch :: nat) \<le> 57)"

definition digits_value :: "string \<Rightarrow> int" where
  "digits_value ds = foldl (\<lambda>acc ch. 10 * acc + (of_char ch - 48)) 0 ds"

definition stoi :: "string \<Rightarrow> error + int" where
  "stoi str =
     (let s1 = dropWhile isspace str;
          negative = (s1 \<noteq> [] \<and> hd s1 = CHR ''-'');
          s2 = (if s1 \<noteq> [] \<and> (hd s1 = CHR ''-'' \<or> hd s1 = CHR ''+'') then tl s1 else s1);
          ds = takeWhile isdigit s2;
          v = (if negative then - digits_value ds else digits_value ds)
      in if ds = [] \<or> v < - 2147483648 \<or> 2147483647 < v then Inl ModelException
         else Inr v)"

text \<open>
  Class \<^verbatim>\<open>Machine\<close>. \<^verbatim>\<open>parts\<close> is an \<^verbatim>\<open>int\<close>, here unbounded;
  \<^verbatim>\<open>nextInternalEvent\<close> is \<open>None\<close> for infinity.
\<close>

record Machine =
  parts :: int
  nextInternalEvent :: "real option"
  timeToProcess :: int

definition Machine_new :: "int \<Rightarrow> Machine" where
  "Machine_new t = \<lparr>parts = 0, nextInternalEvent = None, timeToProcess = t\<rparr>"

definition Machine_lambda :: "Machine \<Rightarrow> error + (string \<times> Machine)" where
  "Machine_lambda st = Inr (''1'', st)"

definition Machine_deltaInt :: "real \<Rightarrow> Machine \<Rightarrow> error + Machine" where
  "Machine_deltaInt timeElapsed st =
     (let st1 = st\<lparr>parts := parts st - 1\<rparr>
      in if parts st1 > 0
         then Inr (st1\<lparr>nextInternalEvent := Some (timeElapsed + of_int (timeToProcess st1))\<rparr>)
         else Inr (st1\<lparr>nextInternalEvent := None\<rparr>))"

definition Machine_deltaExt :: "string \<Rightarrow> real \<Rightarrow> Machine \<Rightarrow> error + Machine" where
  "Machine_deltaExt input timeElapsed st =
     (let originalParts = parts st in
      case stoi input of
        Inl e \<Rightarrow> Inl e
      | Inr n \<Rightarrow>
          let st1 = st\<lparr>parts := parts st + n\<rparr>
          in if parts st1 = 0 then Inr (st1\<lparr>nextInternalEvent := None\<rparr>)
             else if originalParts = 0 \<and> parts st1 > 0
             then Inr (st1\<lparr>nextInternalEvent :=
                               Some (timeElapsed + of_int (timeToProcess st1))\<rparr>)
             else Inr st1)"

definition Machine_deltaCon :: "string \<Rightarrow> real \<Rightarrow> Machine \<Rightarrow> error + Machine" where
  "Machine_deltaCon input timeElapsed st =
     (let originalParts = parts st in
      case stoi input of
        Inl e \<Rightarrow> Inl e
      | Inr n \<Rightarrow>
          let st1 = st\<lparr>parts := parts st + (n - 1)\<rparr>
          in if parts st1 = 0 then Inr (st1\<lparr>nextInternalEvent := None\<rparr>)
             else if originalParts = 0 \<and> parts st1 > 0
             then Inr (st1\<lparr>nextInternalEvent :=
                               Some (timeElapsed + of_int (timeToProcess st1))\<rparr>)
             else Inr st1)"

definition Machine_getNextInternalEvent :: "Machine \<Rightarrow> error + (real option \<times> Machine)" where
  "Machine_getNextInternalEvent st = Inr (nextInternalEvent st, st)"

definition Machine_vtable :: "Machine SimulationModel" where
  "Machine_vtable =
     \<lparr>lambda = Machine_lambda, deltaInt = Machine_deltaInt, deltaExt = Machine_deltaExt,
      deltaCon = Machine_deltaCon, getNextInternalEvent = Machine_getNextInternalEvent\<rparr>"

text \<open>\<^verbatim>\<open>Drill\<close> overrides \<^verbatim>\<open>lambda\<close>; \<^verbatim>\<open>Press\<close> overrides nothing.\<close>

definition Drill_lambda :: "Machine \<Rightarrow> error + (string \<times> Machine)" where
  "Drill_lambda st = Inr (''1 part completed'', st)"

definition Drill :: "Machine object" where
  "Drill = \<lparr>vtable = Machine_vtable\<lparr>lambda := Drill_lambda\<rparr>, state = Machine_new 2\<rparr>"

definition Press :: "Machine object" where
  "Press = \<lparr>vtable = Machine_vtable, state = Machine_new 1\<rparr>"

section \<open>Sequences of calls\<close>

text \<open>A sequence of scheduling calls on one queue; it stops at the first error.\<close>

datatype schedule_call =
    ScheduleInternal real model_ref
  | ScheduleExternal string real model_ref

fun schedule_calls :: "schedule_call list \<Rightarrow> Event list \<Rightarrow> error + Event list" where
  "schedule_calls [] q = Inr q"
| "schedule_calls (ScheduleInternal r m # cs) q =
     (case scheduleInternalEvent r m q of Inl e \<Rightarrow> Inl e | Inr q' \<Rightarrow> schedule_calls cs q')"
| "schedule_calls (ScheduleExternal input r m # cs) q =
     (case scheduleExternalEvent input r m q of Inl e \<Rightarrow> Inl e | Inr q' \<Rightarrow> schedule_calls cs q')"

text \<open>A sequence of configuration calls on a simulator, as \<^verbatim>\<open>main\<close> makes them.\<close>

datatype config_call =
    AddInput string real
  | AddModel model_ref
  | AddCoupling model_ref model_ref
  | RouteInputTo model_ref
  | TakeOutputFrom model_ref

fun configure_call :: "config_call \<Rightarrow> 's Simulator \<Rightarrow> 's Simulator" where
  "configure_call (AddInput input r) s = addInput input r s"
| "configure_call (AddModel m) s = addModel m s"
| "configure_call (AddCoupling m1 m2) s = addCoupling m1 m2 s"
| "configure_call (RouteInputTo m) s = routeInputTo m s"
| "configure_call (TakeOutputFrom m) s = takeOutputFrom m s"

definition configure :: "config_call list \<Rightarrow> 's Simulator \<Rightarrow> 's Simulator" where
  "configure cs s = fold configure_call cs s"

section \<open>The properties of the queue, as predicates\<close>

definition event_r :: "Event \<Rightarrow> real" where
  "event_r e = getR (getTime e)"

definition event_c :: "Event \<Rightarrow> int" where
  "event_c e = getC (getTime e)"

text \<open>Non-decreasing real time.\<close>

definition sorted_by_r :: "Event list \<Rightarrow> bool" where
  "sorted_by_r q = sorted (map event_r q)"

text \<open>Strictly increasing counters among the entries of one real time.\<close>

definition counters_increasing :: "Event list \<Rightarrow> bool" where
  "counters_increasing q =
     sorted_wrt (\<lambda>a b. if event_r a = event_r b then event_c a < event_c b else True) q"

text \<open>At most one pending entry for a model at a real time.\<close>

definition one_entry_per_model_and_r :: "Event list \<Rightarrow> bool" where
  "one_entry_per_model_and_r q = distinct (map (\<lambda>e. (getModel e, event_r e)) q)"


section \<open>Configurations\<close>

text \<open>
  The payload of the last \<^verbatim>\<open>addInput\<close> call for time \<open>r\<close> in a sequence of
  configuration calls, if there is one.
\<close>

fun latest_input :: "config_call list \<Rightarrow> real \<Rightarrow> string option" where
  "latest_input [] r = None"
| "latest_input (c # cs) r =
     (case latest_input cs r of
        Some input \<Rightarrow> Some input
      | None \<Rightarrow> (case c of AddInput input r' \<Rightarrow> if r' = r then Some input else None
                 | _ \<Rightarrow> None))"

text \<open>One External event with counter 0 for each entry of the input schedule.\<close>

definition seed_events :: "model_ref \<Rightarrow> (real \<times> string) list \<Rightarrow> Event list" where
  "seed_events m ins = map (\<lambda>(r, input). ExternalEvent input \<lparr>getR = r, getC = 0\<rparr> m) ins"


definition main_heap :: "Machine store" where
  "main_heap = [1 \<mapsto> Press, 2 \<mapsto> Drill]"










text \<open>
  The records the routing loop of a step writes to the trace at time \<open>r\<close>: those of the
  entries of \<^verbatim>\<open>models\<close> with a non-empty output whose coupling reads as null.
\<close>

definition trace_records ::
  "real \<Rightarrow> (model_ref \<times> string) list \<Rightarrow> (model_ref \<times> model_ref) list \<Rightarrow> (real \<times> string) list" where
  "trace_records r ms cp =
     map (\<lambda>(m, output). (r, output))
       (filter (\<lambda>(m, output). output \<noteq> [] \<and> (map_of cp m = None \<or> map_of cp m = Some nullptr))
          ms)"


text \<open>A press that receives the input and has no coupling of its own: no exit point is set.\<close>

definition no_exit_calls :: "config_call list" where
  "no_exit_calls = [AddModel 1, RouteInputTo 1, AddInput ''1'' 1.5]"






section \<open>The queue on concrete call sequences\<close>

text \<open>
  Claim C1: after any sequence of \<^verbatim>\<open>scheduleInternalEvent\<close> and
  \<^verbatim>\<open>scheduleExternalEvent\<close> calls from the empty queue, the queue is sorted by real
  time, counters increase strictly among entries of one real time, and a model has at most
  one entry at a real time. The code breaks each of the three parts. Two internal events at
  one time for two models both get counter 0 (the append at the tail, line 135, does not
  look at the last counter). An external event scheduled at time 1 behind an internal event
  of another model is inserted behind the entry at time 2 (the scan of line 206 does not
  compare times). Two external events for one model at one time are both kept.
\<close>

theorem schedule_calls_break_queue_invariant:
  "schedule_calls [ScheduleInternal 1 1, ScheduleInternal 1 2] [] =
     Inr [InternalEvent [] \<lparr>getR = 1, getC = 0\<rparr> 1,
          InternalEvent [] \<lparr>getR = 1, getC = 0\<rparr> 2]
   \<and> \<not> counters_increasing
         [InternalEvent [] \<lparr>getR = 1, getC = 0\<rparr> 1,
          InternalEvent [] \<lparr>getR = 1, getC = 0\<rparr> 2]
   \<and> schedule_calls
         [ScheduleInternal 1 1, ScheduleExternal ''y'' 2 2, ScheduleExternal ''z'' 3 3,
          ScheduleExternal ''a'' 1 4] [] =
       Inr [InternalEvent [] \<lparr>getR = 1, getC = 0\<rparr> 1,
            ExternalEvent ''y'' \<lparr>getR = 2, getC = 0\<rparr> 2,
            ExternalEvent ''a'' \<lparr>getR = 1, getC = 1\<rparr> 4,
            ExternalEvent ''z'' \<lparr>getR = 3, getC = 0\<rparr> 3]
   \<and> \<not> sorted_by_r
         [InternalEvent [] \<lparr>getR = 1, getC = 0\<rparr> 1,
          ExternalEvent ''y'' \<lparr>getR = 2, getC = 0\<rparr> 2,
          ExternalEvent ''a'' \<lparr>getR = 1, getC = 1\<rparr> 4,
          ExternalEvent ''z'' \<lparr>getR = 3, getC = 0\<rparr> 3]
   \<and> schedule_calls
         [ScheduleExternal ''a'' 1 1, ScheduleExternal ''z'' 2 2, ScheduleExternal ''b'' 1 1] [] =
       Inr [ExternalEvent ''a'' \<lparr>getR = 1, getC = 0\<rparr> 1,
            ExternalEvent ''b'' \<lparr>getR = 1, getC = 1\<rparr> 1,
            ExternalEvent ''z'' \<lparr>getR = 2, getC = 0\<rparr> 2]
   \<and> \<not> one_entry_per_model_and_r
         [ExternalEvent ''a'' \<lparr>getR = 1, getC = 0\<rparr> 1,
          ExternalEvent ''b'' \<lparr>getR = 1, getC = 1\<rparr> 1,
          ExternalEvent ''z'' \<lparr>getR = 2, getC = 0\<rparr> 2]"
  by code_simp

text \<open>
  Claim C2: an external event arriving for a model with a pending internal event at the same
  time (and an internal event arriving on a pending external one) replaces that entry in
  place by one Confluent event and leaves every other entry unchanged. The code writes the
  Confluent event to the slot where the scan of that time began (\<^verbatim>\<open>queue[i]\<close>, lines
  144 and 202), not to the slot of the entry found. With an external event of model 5
  first at time 1 and the entry of model 2 behind it, the entry of model 5 is overwritten
  and the entry of model 2 stays, in both directions.
\<close>

theorem confluent_written_to_first_slot:
  "schedule_calls
     [ScheduleExternal ''x'' 1 5, ScheduleExternal ''z'' 2 9, ScheduleExternal ''y'' 3 9,
      ScheduleInternal 1 2] [] =
     Inr [ExternalEvent ''x'' \<lparr>getR = 1, getC = 0\<rparr> 5,
          InternalEvent [] \<lparr>getR = 1, getC = 1\<rparr> 2,
          ExternalEvent ''z'' \<lparr>getR = 2, getC = 0\<rparr> 9,
          ExternalEvent ''y'' \<lparr>getR = 3, getC = 0\<rparr> 9]
   \<and> scheduleExternalEvent ''a'' 1 2
         [ExternalEvent ''x'' \<lparr>getR = 1, getC = 0\<rparr> 5,
          InternalEvent [] \<lparr>getR = 1, getC = 1\<rparr> 2,
          ExternalEvent ''z'' \<lparr>getR = 2, getC = 0\<rparr> 9,
          ExternalEvent ''y'' \<lparr>getR = 3, getC = 0\<rparr> 9] =
       Inr [ConfluentEvent ''a'' \<lparr>getR = 1, getC = 1\<rparr> 2,
            InternalEvent [] \<lparr>getR = 1, getC = 1\<rparr> 2,
            ExternalEvent ''z'' \<lparr>getR = 2, getC = 0\<rparr> 9,
            ExternalEvent ''y'' \<lparr>getR = 3, getC = 0\<rparr> 9]
   \<and> schedule_calls
         [ScheduleExternal ''x'' 1 5, ScheduleExternal ''z'' 2 9, ScheduleExternal ''a'' 1 2] [] =
       Inr [ExternalEvent ''x'' \<lparr>getR = 1, getC = 0\<rparr> 5,
            ExternalEvent ''a'' \<lparr>getR = 1, getC = 1\<rparr> 2,
            ExternalEvent ''z'' \<lparr>getR = 2, getC = 0\<rparr> 9]
   \<and> scheduleInternalEvent 1 2
         [ExternalEvent ''x'' \<lparr>getR = 1, getC = 0\<rparr> 5,
          ExternalEvent ''a'' \<lparr>getR = 1, getC = 1\<rparr> 2,
          ExternalEvent ''z'' \<lparr>getR = 2, getC = 0\<rparr> 9] =
       Inr [ConfluentEvent ''a'' \<lparr>getR = 1, getC = 1\<rparr> 2,
            ExternalEvent ''a'' \<lparr>getR = 1, getC = 1\<rparr> 2,
            ExternalEvent ''z'' \<lparr>getR = 2, getC = 0\<rparr> 9]"
  by code_simp

text \<open>
  Claim C3: an insertion that is no confluence merge gives the new event the counter of the
  preceding entry of the same time plus one, also when the entries of that time are at the
  tail of the queue, and keeps the queue in time order. In
  \<^verbatim>\<open>scheduleInternalEvent\<close> the insertion in the middle does so (line 155), the
  append at the tail takes counter 0 (line 135). When the entries of the time reach the
  tail and are more than one, or when one entry follows them, the loop ends without
  inserting: the event is lost.
\<close>

theorem scheduleInternalEvent_at_tail:
  "scheduleInternalEvent 1 2 [InternalEvent [] \<lparr>getR = 1, getC = 0\<rparr> 1] =
     Inr [InternalEvent [] \<lparr>getR = 1, getC = 0\<rparr> 1,
          InternalEvent [] \<lparr>getR = 1, getC = 0\<rparr> 2]
   \<and> scheduleInternalEvent 1 3
         [InternalEvent [] \<lparr>getR = 1, getC = 0\<rparr> 1,
          InternalEvent [] \<lparr>getR = 1, getC = 0\<rparr> 2] =
       Inr [InternalEvent [] \<lparr>getR = 1, getC = 0\<rparr> 1,
            InternalEvent [] \<lparr>getR = 1, getC = 0\<rparr> 2]
   \<and> scheduleInternalEvent 1 2
         [InternalEvent [] \<lparr>getR = 1, getC = 0\<rparr> 1,
          InternalEvent [] \<lparr>getR = 2, getC = 0\<rparr> 1] =
       Inr [InternalEvent [] \<lparr>getR = 1, getC = 0\<rparr> 1,
            InternalEvent [] \<lparr>getR = 2, getC = 0\<rparr> 1]"
  by code_simp

text \<open>
  Claim C9: on a queue that satisfies the ordering invariant, every read of the deque in the
  loop of \<^verbatim>\<open>scheduleExternalEvent\<close> is inside the deque. The loop has no bound
  (\<^verbatim>\<open>scheduleInternalEvent\<close> stops at \<^verbatim>\<open>queue.size() - 1\<close>): when the entries
  of the time reach the last element, the read of line 207 or of line 212 is one past the
  end.
\<close>

theorem scheduleExternalEvent_reads_past_end:
  "sorted_by_r [InternalEvent [] \<lparr>getR = 1, getC = 0\<rparr> 1]
   \<and> counters_increasing [InternalEvent [] \<lparr>getR = 1, getC = 0\<rparr> 1]
   \<and> one_entry_per_model_and_r [InternalEvent [] \<lparr>getR = 1, getC = 0\<rparr> 1]
   \<and> scheduleExternalEvent ''a'' 1 2 [InternalEvent [] \<lparr>getR = 1, getC = 0\<rparr> 1] =
       Inl OutOfBounds
   \<and> scheduleExternalEvent ''b'' 1 1 [ExternalEvent ''a'' \<lparr>getR = 1, getC = 0\<rparr> 1] =
       Inl OutOfBounds"
  by code_simp

section \<open>The imminent events\<close>







section \<open>The maps of the simulator and the input schedule\<close>

lemma map_of_map_assign: "map_of (map_assign k v m) = (map_of m)(k \<mapsto> v)"
  by (induction m) (auto simp: fun_eq_iff)

lemma set_fst_map_assign: "fst ` set (map_assign k v m) = insert k (fst ` set m)"
  by (simp add: dom_map_of_conv_image_fst[symmetric] map_of_map_assign)

lemma sorted_map_assign:
  "sorted_wrt (<) (map fst m) \<Longrightarrow> sorted_wrt (<) (map fst (map_assign k v m))"
proof (induction m)
  case Nil
  then show ?case by simp
next
  case (Cons a m)
  obtain k' v' where a: "a = (k', v')" by (cases a)
  show ?case
  proof (cases "k < k'")
    case True
    then show ?thesis using Cons.prems a by auto
  next
    case False
    show ?thesis
    proof (cases "k = k'")
      case True
      then show ?thesis using Cons.prems a by auto
    next
      case neq: False
      have lt: "k' < k" using False neq by simp
      have "sorted_wrt (<) (map fst (map_assign k v m))"
        using Cons.IH Cons.prems by simp
      moreover have "\<forall>x\<in>fst ` set (map_assign k v m). k' < x"
        using Cons.prems a lt by (auto simp: set_fst_map_assign)
      ultimately show ?thesis using a False neq by auto
    qed
  qed
qed

lemma scheduleExternalEvent_for_append:
  "\<forall>e\<in>set q. event_r e < r \<Longrightarrow>
   scheduleExternalEvent_for input r m i q =
     Inr (q @ [ExternalEvent input \<lparr>getR = r, getC = 0\<rparr> m])"
proof (induction input r m i q rule: scheduleExternalEvent_for.induct)
  case (1 input r model i qs)
  show ?case
  proof (cases "i < length qs")
    case True
    then have "event_r (qs ! i) < r" using "1.prems" by simp
    then have ne: "getR (getTime (qs ! i)) \<noteq> r" "\<not> r < getR (getTime (qs ! i))"
      by (simp_all add: event_r_def)
    have "scheduleExternalEvent_for input r model i qs =
          scheduleExternalEvent_for input r model (i + 1) qs"
      using True ne by (subst scheduleExternalEvent_for.simps) (simp add: Let_def)
    also have "\<dots> = Inr (qs @ [ExternalEvent input \<lparr>getR = r, getC = 0\<rparr> model])"
      using True ne "1.prems" by (intro "1.IH") auto
    finally show ?thesis .
  next
    case False
    then show ?thesis by (subst scheduleExternalEvent_for.simps) simp
  qed
qed

lemma scheduleEvents_for_sorted:
  "sorted_wrt (<) (map fst ins) \<Longrightarrow> \<forall>e\<in>set q. \<forall>r\<in>fst ` set ins. event_r e < r \<Longrightarrow>
   scheduleEvents_for m ins q = Inr (q @ seed_events m ins)"
proof (induction ins arbitrary: q)
  case Nil
  then show ?case by (simp add: seed_events_def)
next
  case (Cons a ins)
  obtain r input where a: "a = (r, input)" by (cases a)
  have 1: "scheduleExternalEvent input r m q = Inr (q @ [ExternalEvent input \<lparr>getR = r, getC = 0\<rparr> m])"
    unfolding scheduleExternalEvent_def
    using Cons.prems(2) a by (intro scheduleExternalEvent_for_append) auto
  have 2: "scheduleEvents_for m ins (q @ [ExternalEvent input \<lparr>getR = r, getC = 0\<rparr> m]) =
           Inr ((q @ [ExternalEvent input \<lparr>getR = r, getC = 0\<rparr> m]) @ seed_events m ins)"
  proof (rule Cons.IH)
    show "sorted_wrt (<) (map fst ins)" using Cons.prems(1) by simp
    show "\<forall>e\<in>set (q @ [ExternalEvent input \<lparr>getR = r, getC = 0\<rparr> m]). \<forall>r\<in>fst ` set ins. event_r e < r"
      using Cons.prems a by (auto simp: event_r_def ExternalEvent_def)
  qed
  show ?case using 1 2 a by (simp add: seed_events_def)
qed

lemma configure_Cons: "configure (c # cs) s = configure cs (configure_call c s)"
  by (simp add: configure_def)

lemma queue_configure: "queue (configure cs s) = queue s"
  by (induction cs arbitrary: s; simp add: configure_def; case_tac a; simp add: addInput_def addModel_def addCoupling_def routeInputTo_def takeOutputFrom_def)

lemma sorted_inputs_configure:
  "sorted_wrt (<) (map fst (inputs s)) \<Longrightarrow> sorted_wrt (<) (map fst (inputs (configure cs s)))"
proof (induction cs arbitrary: s)
  case Nil
  then show ?case by (simp add: configure_def)
next
  case (Cons c cs)
  have "sorted_wrt (<) (map fst (inputs (configure_call c s)))"
    using Cons.prems
    by (cases c)
       (simp_all add: addInput_def addModel_def addCoupling_def routeInputTo_def
          takeOutputFrom_def sorted_map_assign)
  then show ?case unfolding configure_Cons by (rule Cons.IH)
qed

lemma map_of_inputs_configure:
  "map_of (inputs (configure cs s)) r =
     (case latest_input cs r of Some input \<Rightarrow> Some input | None \<Rightarrow> map_of (inputs s) r)"
proof (induction cs arbitrary: s)
  case Nil
  then show ?case by (simp add: configure_def)
next
  case (Cons c cs)
  have "map_of (inputs (configure_call c s)) r =
          (case c of AddInput input r' \<Rightarrow> if r' = r then Some input else map_of (inputs s) r
           | _ \<Rightarrow> map_of (inputs s) r)"
    by (cases c)
       (simp_all add: addInput_def addModel_def addCoupling_def routeInputTo_def
          takeOutputFrom_def map_of_map_assign)
  then show ?case
    unfolding configure_Cons Cons.IH
    by (cases c) (auto split: option.splits)
qed

text \<open>
  Claim C10: the input schedule is a map keyed by time. After any sequence of
  configuration calls on a new simulator, the schedule is in strictly ascending time order
  and holds for each time the payload of the last \<^verbatim>\<open>addInput\<close> call for it;
  \<^verbatim>\<open>scheduleEvents\<close> succeeds and the queue is then one External event per time
  of the schedule, in that order, with that payload, for the entry-point model.
\<close>

theorem scheduleEvents_seeds_queue:
  "\<exists>s'. scheduleEvents (configure cs (Simulator_new h)) = Inr s'
      \<and> queue s' =
          seed_events (fst (map_index nullptr nullptr (couplings (configure cs (Simulator_new h)))))
            (inputs (configure cs (Simulator_new h)))
      \<and> sorted_wrt (<) (map fst (inputs (configure cs (Simulator_new h))))
      \<and> (\<forall>r. map_of (inputs (configure cs (Simulator_new h))) r = latest_input cs r)"
proof -
  let ?s = "configure cs (Simulator_new h)"
  have q: "queue ?s = []" by (simp add: queue_configure Simulator_new_def)
  have srt: "sorted_wrt (<) (map fst (inputs ?s))"
    by (rule sorted_inputs_configure) (simp add: Simulator_new_def)
  have latest: "\<forall>r. map_of (inputs ?s) r = latest_input cs r"
    by (simp add: map_of_inputs_configure Simulator_new_def split: option.splits)
  obtain im cp where mi: "map_index nullptr nullptr (couplings ?s) = (im, cp)"
    by (cases "map_index nullptr nullptr (couplings ?s)")
  have "scheduleEvents_for im (inputs ?s) [] = Inr ([] @ seed_events im (inputs ?s))"
    using srt by (intro scheduleEvents_for_sorted) simp_all
  then have "scheduleEvents ?s = Inr (?s\<lparr>couplings := cp, queue := seed_events im (inputs ?s)\<rparr>)"
    by (simp add: scheduleEvents_def mi q)
  then show ?thesis using srt latest mi by simp
qed

theorem scheduleEvents_seeds_queue_witness:
  "map_sum id queue
     (scheduleEvents
        (configure [RouteInputTo 1, AddInput ''12'' 1.5, AddInput ''2'' 2.7, AddInput ''7'' 1.5]
           (Simulator_new main_heap))) =
     Inr [ExternalEvent ''7'' \<lparr>getR = 1.5, getC = 0\<rparr> 1,
          ExternalEvent ''2'' \<lparr>getR = 2.7, getC = 0\<rparr> 1]"
proof -
  let ?cs = "[RouteInputTo 1, AddInput ''12'' 1.5, AddInput ''2'' 2.7, AddInput ''7'' 1.5]"
  have i: "inputs (configure ?cs (Simulator_new main_heap)) = [(1.5, ''7''), (2.7, ''2'')]"
    by code_simp
  have c: "fst (map_index nullptr nullptr (couplings (configure ?cs (Simulator_new main_heap)))) = 1"
    by code_simp
  from scheduleEvents_seeds_queue[of ?cs main_heap] obtain s' where
    1: "scheduleEvents (configure ?cs (Simulator_new main_heap)) = Inr s'" and
    2: "queue s' =
          seed_events (fst (map_index nullptr nullptr (couplings (configure ?cs (Simulator_new main_heap)))))
            (inputs (configure ?cs (Simulator_new main_heap)))"
    by blast
  have "queue s' = [ExternalEvent ''7'' \<lparr>getR = 1.5, getC = 0\<rparr> 1,
           ExternalEvent ''2'' \<lparr>getR = 2.7, getC = 0\<rparr> 1]"
    unfolding 2 i c by (simp add: seed_events_def)
  with 1 show ?thesis by simp
qed

section \<open>The calls of a simulation step\<close>
















section \<open>Routing of the outputs\<close>

lemma trace_records_map_assign:
  assumes "map_of cp m = None"
  shows "trace_records r ms (map_assign m nullptr cp) = trace_records r ms cp"
proof -
  have "(map_of (map_assign m nullptr cp) k = None \<or> map_of (map_assign m nullptr cp) k = Some nullptr)
        = (map_of cp k = None \<or> map_of cp k = Some nullptr)" for k
    using assms by (cases "k = m") (simp_all add: map_of_map_assign)
  then show ?thesis by (simp add: trace_records_def)
qed

lemma route_loop_sb:
  "route_loop r ms s = Inr s' \<Longrightarrow> sb s' = sb s @ trace_records r ms (couplings s)"
proof (induction ms arbitrary: s)
  case Nil
  then show ?case by (simp add: trace_records_def)
next
  case (Cons a ms)
  obtain m out where a: "a = (m, out)" by (cases a)
  show ?case
  proof (cases "out = []")
    case True
    then have "route_loop r ms s = Inr s'" using Cons.prems a by simp
    from Cons.IH[OF this] show ?thesis using True a by (simp add: trace_records_def)
  next
    case False
    show ?thesis
    proof (cases "map_of (couplings s) m")
      case None
      let ?s1 = "s\<lparr>couplings := map_assign m nullptr (couplings s), sb := sb s @ [(r, out)]\<rparr>"
      have "route_loop r ms ?s1 = Inr s'"
        using Cons.prems a False None by (simp add: map_index_def)
      from Cons.IH[OF this]
      have "sb s' = sb s @ (r, out) # trace_records r ms (couplings s)"
        using None by (simp add: trace_records_map_assign)
      then show ?thesis using a False None by (simp add: trace_records_def)
    next
      case (Some d)
      show ?thesis
      proof (cases "d = nullptr")
        case True
        let ?s1 = "s\<lparr>couplings := couplings s, sb := sb s @ [(r, out)]\<rparr>"
        have "route_loop r ms ?s1 = Inr s'"
          using Cons.prems a False Some True by (simp add: map_index_def)
        from Cons.IH[OF this]
        have "sb s' = sb s @ (r, out) # trace_records r ms (couplings s)" by simp
        then show ?thesis using a False Some True by (simp add: trace_records_def)
      next
        case dn: False
        from Cons.prems a False Some dn obtain q where
          "route_loop r ms (s\<lparr>couplings := couplings s, queue := q\<rparr>) = Inr s'"
          by (auto simp: map_index_def split: sum.splits)
        from Cons.IH[OF this]
        have "sb s' = sb s @ trace_records r ms (couplings s)" by simp
        then show ?thesis using a False Some dn by (simp add: trace_records_def)
      qed
    qed
  qed
qed

text \<open>
  Claim C4, amended: a model with a non-empty output and no entry in the coupling table is
  handled as the exit point is. The read \<^verbatim>\<open>couplings[model.first]\<close> creates a null
  entry for it, the record \<open>(r, output)\<close> is appended to the trace and no event is
  scheduled. The records a routing loop appends to the trace are those of the models with a
  non-empty output whose coupling is missing or null.
\<close>

theorem uncoupled_output_goes_to_trace:
  "(map_of (couplings s) m = None \<and> out \<noteq> [] \<longrightarrow>
      route_loop r ((m, out) # rest) s =
        route_loop r rest
          (s\<lparr>couplings := map_assign m nullptr (couplings s), sb := sb s @ [(r, out)]\<rparr>))
   \<and> (route_loop r ms s = Inr s' \<longrightarrow> sb s' = sb s @ trace_records r ms (couplings s))"
  by (auto simp: map_index_def route_loop_sb)

theorem uncoupled_output_goes_to_trace_witness:
  "map_of (couplings (configure no_exit_calls (Simulator_new main_heap))) 1 = None
   \<and> map_sum id (\<lambda>s'. (sb s', queue s', couplings s'))
         (route_loop 2.5 [(1, ''1'')] (configure no_exit_calls (Simulator_new main_heap))) =
       Inr ([(2.5, ''1'')], [], [(nullptr, 1), (1, nullptr)])"
proof -
  let ?s = "configure no_exit_calls (Simulator_new main_heap)"
  let ?s1 = "?s\<lparr>couplings := map_assign 1 nullptr (couplings ?s), sb := sb ?s @ [(2.5, ''1'')]\<rparr>"
  have n: "map_of (couplings ?s) 1 = None \<and> ''1'' \<noteq> []" by code_simp
  have "route_loop 2.5 ((1, ''1'') # []) ?s = route_loop 2.5 [] ?s1"
    using uncoupled_output_goes_to_trace[of ?s 1 "''1''" "2.5" "[]"] n by blast
  then have r: "route_loop 2.5 [(1, ''1'')] ?s = Inr ?s1" by simp
  have "sb ?s1 = [(2.5, ''1'')]" by code_simp
  moreover have "queue ?s1 = []" by code_simp
  moreover have "couplings ?s1 = [(nullptr, 1), (1, nullptr)]" by code_simp
  ultimately show ?thesis using n unfolding r by simp
qed

text \<open>
  Claim C4 as stated fails: the press has no entry in the coupling table, and its output at
  time 2.5 is in the trace.
\<close>

theorem uncoupled_output_counterexample:
  "map_of (couplings (configure no_exit_calls (Simulator_new main_heap))) 1 = None
   \<and> simulate 10 (configure no_exit_calls (Simulator_new main_heap)) = Some (Inr [(2.5, ''1'')])"
  by code_simp

section \<open>Dependence on the addresses\<close>









section \<open>A run without an entry point\<close>

declare scheduleExternalEvent_while.simps [simp del]
declare scheduleExternalEvent_for.simps [simp del]














end
